theory Spec2Isabelle
  imports Complex_Main "HOL-Library.Sublist"
begin

section \<open>Data preparation: \<open>sft/code/prepare_data.py\<close>\<close>

subsection \<open>Data model\<close>

text \<open>
  A message of a conversation is a Python dict with the keys \<open>role\<close> and \<open>content\<close>; a
  dataset row handed to \<open>preprocess_chat_dataset\<close> is a dict whose key \<open>conversation\<close>
  holds the list of messages. The value returned is a dict with the three keys
  \<open>input_ids\<close>, \<open>labels\<close> and \<open>attention_mask\<close>. Token ids and labels are Python
  integers.
\<close>

record turn =
  role :: string
  content :: string

record chat_example =
  conversation :: "turn list"

record tokenized =
  input_ids :: "int list"
  labels :: "int list"
  attention_mask :: "int list"

text \<open>
  The only key of \<open>config\<close> that \<open>preprocess_chat_dataset\<close> reads is \<open>max_length\<close>;
  \<open>None\<close> stands for a config without that key.
\<close>

record sft_config =
  max_length :: "int option"

text \<open>
  \<open>tokenizer.apply_chat_template(messages, add_generation_prompt=b)\<close> belongs to the
  external tokenizer: it is a parameter of the model. The flag defaults to \<open>False\<close> where
  the source leaves it out.
\<close>

type_synonym chat_template = "turn list \<Rightarrow> bool \<Rightarrow> int list"

subsection \<open>Python list operations\<close>

text \<open>
  \<open>xs[i:j] = ys\<close> for indices that are not negative: both indices are clamped to the length
  of the list, an upper index below the lower one is raised to it, and the slice is replaced
  by \<open>ys\<close>, whatever the length of \<open>ys\<close>.
\<close>

definition slice_assign :: "'a list \<Rightarrow> nat \<Rightarrow> nat \<Rightarrow> 'a list \<Rightarrow> 'a list" where
  "slice_assign xs i j ys = take i xs @ ys @ drop (max i j) xs"

text \<open>\<open>xs[:n]\<close>: a negative bound counts from the end of the list.\<close>

definition slice_to :: "'a list \<Rightarrow> int \<Rightarrow> 'a list" where
  "slice_to xs n = (if n < 0 then take (nat (int (length xs) + n)) xs else take (nat n) xs)"

subsection \<open>\<open>preprocess_chat_dataset\<close>\<close>

definition INGORE_INDEX :: int where
  "INGORE_INDEX = - 100"

definition message_start_idx :: "chat_template \<Rightarrow> turn list \<Rightarrow> nat \<Rightarrow> nat" where
  "message_start_idx render messages idx =
     (if idx = 0 then 0 else length (render (take idx messages) False))"

definition message_end_idx :: "chat_template \<Rightarrow> turn list \<Rightarrow> nat \<Rightarrow> nat" where
  "message_end_idx render messages idx =
     (if idx < length messages - 1 \<and> role (messages ! (idx + 1)) = ''assistant''
      then length (render (take (idx + 1) messages) True)
      else length (render (take (idx + 1) messages) False))"

text \<open>
  One iteration of the loop over \<open>enumerate(messages)\<close>. The replacement list
  \<open>[INGORE_INDEX] * (message_end_idx - message_start_idx)\<close> is empty when the difference
  is negative, which is what the truncating subtraction of \<open>nat\<close> gives.
\<close>

definition mask_message :: "chat_template \<Rightarrow> turn list \<Rightarrow> tokenized \<Rightarrow> nat \<Rightarrow> tokenized" where
  "mask_message render messages data idx =
     (if role (messages ! idx) \<noteq> ''assistant''
      then data\<lparr>labels :=
             slice_assign (labels data)
               (message_start_idx render messages idx)
               (message_end_idx render messages idx)
               (replicate (message_end_idx render messages idx
                           - message_start_idx render messages idx) INGORE_INDEX)\<rparr>
      else data)"

definition mask_loop :: "chat_template \<Rightarrow> turn list \<Rightarrow> nat list \<Rightarrow> tokenized \<Rightarrow> tokenized" where
  "mask_loop render messages idxs data = foldl (mask_message render messages) data idxs"

definition truncate_data :: "sft_config \<Rightarrow> tokenized \<Rightarrow> tokenized" where
  "truncate_data config data =
     (case max_length config of
        None \<Rightarrow> data
      | Some n \<Rightarrow> \<lparr>input_ids = slice_to (input_ids data) n,
                   labels = slice_to (labels data) n,
                   attention_mask = slice_to (attention_mask data) n\<rparr>)"

definition preprocess_chat_dataset :: "chat_template \<Rightarrow> chat_example \<Rightarrow> sft_config \<Rightarrow> tokenized" where
  "preprocess_chat_dataset render messages config =
     (let msgs = conversation messages;
          inputs = render msgs True;
          data = \<lparr>input_ids = inputs, labels = inputs,
                  attention_mask = replicate (length inputs) 1\<rparr>
      in truncate_data config (mask_loop render msgs [0..<length msgs] data))"

text \<open>The dict \<open>data\<close> as it is before the loop.\<close>

definition initial_data :: "chat_template \<Rightarrow> turn list \<Rightarrow> tokenized" where
  "initial_data render messages =
     \<lparr>input_ids = render messages True, labels = render messages True,
      attention_mask = replicate (length (render messages True)) 1\<rparr>"

subsection \<open>\<open>apply_input_output_template\<close>\<close>

datatype py_error =
    KeyError string | FileNotFoundError | UnpicklingError | EOFError | RuntimeError
  | TypeError | AttributeError | ValueError | ZeroDivisionError

definition nl :: string where
  "nl = [CHR 0x0A]"

text \<open>
  The two module-level templates, split at their placeholders: \<open>str.format\<close> replaces
  \<open>{question}\<close>, \<open>{cot}\<close> and \<open>{response}\<close> by the values and copies the rest. Each
  triple-quoted literal starts and ends with a line break, and each \<open>\n\n\<close> escape is
  followed by the line break of the source line.
\<close>

definition prompt_template :: "string \<Rightarrow> string" where
  "prompt_template question = nl @ question @ nl"

definition response_template :: "string \<Rightarrow> string \<Rightarrow> string" where
  "response_template complex_cot response =
     nl @ ''# Thinking'' @ nl @ nl @ nl @ complex_cot @ nl @ nl @ nl @
     ''## Final Response'' @ nl @ nl @ nl @ response @ nl"

text \<open>\<open>example[key]\<close> on a dict of strings raises \<open>KeyError\<close> for a missing key.\<close>

definition getitem :: "(string \<rightharpoonup> string) \<Rightarrow> string \<Rightarrow> py_error + string" where
  "getitem example k = (case example k of None \<Rightarrow> Inl (KeyError k) | Some v \<Rightarrow> Inr v)"

definition apply_input_output_template :: "(string \<rightharpoonup> string) \<Rightarrow> py_error + chat_example" where
  "apply_input_output_template example =
     (case getitem example ''Question'' of
        Inl e \<Rightarrow> Inl e
      | Inr question \<Rightarrow>
          (case getitem example ''Complex_CoT'' of
             Inl e \<Rightarrow> Inl e
           | Inr complex_cot \<Rightarrow>
               (case getitem example ''Response'' of
                  Inl e \<Rightarrow> Inl e
                | Inr response \<Rightarrow>
                    Inr \<lparr>conversation =
                          [\<lparr>role = ''user'', content = prompt_template question\<rparr>,
                           \<lparr>role = ''assistant'', content = response_template complex_cot response\<rparr>]\<rparr>)))"

subsection \<open>The tokenizer contract and a sample chat template\<close>

text \<open>
  The predicates of this subsection are not part of the program. They state what a property
  of the program assumes of the external template, and name the positions that a property
  speaks about.

  Every span that the loop masks ends inside the rendering of the whole conversation.
\<close>

definition spans_fit :: "chat_template \<Rightarrow> turn list \<Rightarrow> bool" where
  "spans_fit render messages =
     list_all (\<lambda>idx. role (messages ! idx) \<noteq> ''assistant'' \<longrightarrow>
                    message_end_idx render messages idx \<le> length (render messages True))
              [0..<length messages]"

text \<open>
  Prefix consistency of the template on a conversation: a rendering without generation prompt
  is a prefix of the rendering of one more turn; the generation prompt is the opening of the
  assistant turn that follows it; and the generation prompt is appended at the end.
\<close>

definition prefix_consistent :: "chat_template \<Rightarrow> turn list \<Rightarrow> bool" where
  "prefix_consistent render messages =
     (list_all (\<lambda>k. prefix (render (take k messages) False)
                           (render (take (Suc k) messages) False)
                   \<and> (role (messages ! k) = ''assistant'' \<longrightarrow>
                        prefix (render (take k messages) True)
                               (render (take (Suc k) messages) False)))
               [0..<length messages]
      \<and> list_all (\<lambda>k. prefix (render (take k messages) False) (render (take k messages) True))
                 [0..<Suc (length messages)])"

text \<open>Two templates give the same rendering of every prefix of a conversation.\<close>

definition agree_on_prefixes :: "chat_template \<Rightarrow> chat_template \<Rightarrow> turn list \<Rightarrow> bool" where
  "agree_on_prefixes render1 render2 messages =
     list_all (\<lambda>k. render1 (take k messages) False = render2 (take k messages) False
                   \<and> render1 (take k messages) True = render2 (take k messages) True)
              [0..<Suc (length messages)]"

text \<open>
  The position \<open>i\<close> lies in the span that the loop masks for turn \<open>idx\<close>, and in the
  span masked for some turn of the conversation.
\<close>

definition in_span :: "chat_template \<Rightarrow> turn list \<Rightarrow> nat \<Rightarrow> nat \<Rightarrow> bool" where
  "in_span render messages i idx \<longleftrightarrow>
     role (messages ! idx) \<noteq> ''assistant''
     \<and> message_start_idx render messages idx \<le> i
     \<and> i < message_end_idx render messages idx"

definition masked :: "chat_template \<Rightarrow> turn list \<Rightarrow> nat \<Rightarrow> bool" where
  "masked render messages i = list_ex (in_span render messages i) [0..<length messages]"

text \<open>
  The tokens of an assistant turn: they start after the generation prompt when the turn before
  is not an assistant turn (that prompt belongs to the span of the turn before), and they end
  where the rendering of the conversation up to and including the turn ends.
\<close>

definition assistant_start :: "chat_template \<Rightarrow> turn list \<Rightarrow> nat \<Rightarrow> nat" where
  "assistant_start render messages idx =
     (if idx = 0 then 0
      else length (render (take idx messages) (role (messages ! (idx - 1)) \<noteq> ''assistant'')))"

definition assistant_end :: "chat_template \<Rightarrow> turn list \<Rightarrow> nat \<Rightarrow> nat" where
  "assistant_end render messages idx = length (render (take (idx + 1) messages) False)"

text \<open>
  A small template in the style of ChatML, for running the definitions: a turn is a role
  token, one token for its content and an end token; an assistant turn opens with the two
  tokens of the generation prompt.
\<close>

definition sample_turn :: "turn \<Rightarrow> int list" where
  "sample_turn t =
     (if role t = ''assistant'' then [10, 2, 100 + int (length (content t)), 11]
      else [if role t = ''user'' then 1 else 3, 100 + int (length (content t)), 11])"

definition sample_template :: chat_template where
  "sample_template messages add_generation_prompt =
     concat (map sample_turn messages) @ (if add_generation_prompt then [10, 2] else [])"

definition sample_conversation :: "turn list" where
  "sample_conversation =
     [\<lparr>role = ''user'', content = ''2+2?''\<rparr>, \<lparr>role = ''assistant'', content = ''4''\<rparr>]"

text \<open>A conversation of two exchanges, to run the masking on a user turn that is not the first.\<close>

definition sample_dialogue :: "turn list" where
  "sample_dialogue =
     [\<lparr>role = ''user'', content = ''2+2?''\<rparr>, \<lparr>role = ''assistant'', content = ''4''\<rparr>,
      \<lparr>role = ''user'', content = ''3+3?''\<rparr>, \<lparr>role = ''assistant'', content = ''six''\<rparr>]"

section \<open>Distributed trainer: \<open>tutorial/ddp/chargpt/trainer.py\<close>\<close>

subsection \<open>Data model\<close>

record trainer_config =
  max_epochs :: int
  grad_norm_clip :: real
  snapshot_path :: "string option"
  save_every :: int
  use_amp :: bool

text \<open>
  A state dict is an ordered dictionary from parameter names to tensors. Tensors are values
  of a type \<open>'w\<close>, and the state of the optimizer is a value of a type \<open>'o\<close>; the trainer
  only stores and copies them and hands them to the numeric library.
\<close>

type_synonym 'w state_dict = "(string \<times> 'w) list"

record ('w, 'o) snapshot =
  model_state :: "'w state_dict"
  optimizer_state :: 'o
  finished_epoch :: int

text \<open>
  What lies at a path of the storage: a file that \<open>torch.load\<close> reads back as the dictionary
  of a snapshot, or one on which opening, loading or building the \<open>Snapshot\<close> raises the
  given exception.
\<close>

datatype ('w, 'o) stored_file = Snapshot_file "('w, 'o) snapshot" | Unreadable py_error

text \<open>
  The calls on the collaborators of the trainer (sampler, model, optimizer, gradient scaler,
  process group, storage, console), in the order in which they are made.
\<close>

datatype log_line =
    Loss_line int int nat bool
  | Snapshot_saved int
  | Snapshot_not_found
  | Resuming int

datatype event =
    Set_epoch bool int
  | Forward bool
  | Zero_grad
  | Backward bool
  | Clip_grad_norm real
  | Scaler_step
  | Scaler_update
  | Optimizer_step
  | Gather
  | Torch_save string int
  | Print log_line

text \<open>
  The attributes of a \<open>Trainer\<close>, followed by the parts of the world that it reads and
  changes. \<open>self.model\<close> is the \<open>DistributedDataParallel\<close> wrapper that line 47 puts around
  the module; the field \<open>model\<close> is the state dict of the wrapped module,
  \<open>self.model.module.state_dict()\<close>. A data loader is the number of batches that it yields;
  \<open>self_save_every\<close> is the attribute \<open>self.save_every\<close>. The world is the storage behind
  \<open>fsspec\<close> and \<open>torch.save\<close>, with \<open>parent_exists\<close> telling for a path whether the
  directory that holds it exists, and the trace of calls.
\<close>

record ('w, 'o) trainer =
  config :: trainer_config
  local_rank :: int
  world_size :: int
  global_rank :: int
  model :: "'w state_dict"
  optimizer :: 'o
  train_dataloader :: nat
  test_dataloader :: nat
  epochs_run :: int
  self_save_every :: int
  storage :: "string \<rightharpoonup> ('w, 'o) stored_file"
  parent_exists :: "string \<Rightarrow> bool"
  events :: "event list"

text \<open>
  A batch is named by the epoch set on the sampler and its position in that epoch. What the
  backward pass, the clipping and the optimizer step do to the parameters and to the optimizer
  state on a batch is a parameter \<open>step\<close> of the model.
\<close>

type_synonym batch = "int \<times> nat"

type_synonym ('w, 'o) optimizer_step = "batch \<Rightarrow> 'w state_dict \<times> 'o \<Rightarrow> 'w state_dict \<times> 'o"

type_synonym ('w, 'o) outcome = "(py_error \<times> ('w, 'o) trainer) + ('w, 'o) trainer"

definition emit :: "event list \<Rightarrow> ('w, 'o) trainer \<Rightarrow> ('w, 'o) trainer" where
  "emit evs t = t\<lparr>events := events t @ evs\<rparr>"

subsection \<open>Snapshots\<close>

text \<open>
  \<open>_save_snapshot\<close> takes the state dict of \<open>model.module\<close>, the wrapper having that
  attribute. \<open>torch.save\<close> raises \<open>AttributeError\<close> on the path \<open>None\<close> and
  \<open>RuntimeError\<close> when the directory of the path does not exist; otherwise it replaces
  the file.
\<close>

definition save_snapshot :: "int \<Rightarrow> ('w, 'o) trainer \<Rightarrow> py_error + ('w, 'o) trainer" where
  "save_snapshot epoch t =
     (let snapshot = \<lparr>model_state = model t, optimizer_state = optimizer t,
                      finished_epoch = epoch\<rparr>
      in case snapshot_path (config t) of
           None \<Rightarrow> Inl AttributeError
         | Some path \<Rightarrow>
             if parent_exists t path
             then Inr (emit [Torch_save path epoch, Print (Snapshot_saved epoch)]
                         (t\<lparr>storage := (storage t)(path \<mapsto> Snapshot_file snapshot)\<rparr>))
             else Inl RuntimeError)"

text \<open>Opening the path, \<open>torch.load\<close> on the open file and building the \<open>Snapshot\<close>.\<close>

definition torch_load ::
  "(string \<rightharpoonup> ('w, 'o) stored_file) \<Rightarrow> string option \<Rightarrow> py_error + ('w, 'o) snapshot" where
  "torch_load files path =
     (case path of
        None \<Rightarrow> Inl TypeError
      | Some p \<Rightarrow>
          (case files p of
             None \<Rightarrow> Inl FileNotFoundError
           | Some (Unreadable e) \<Rightarrow> Inl e
           | Some (Snapshot_file snapshot_data) \<Rightarrow> Inr snapshot_data))"

text \<open>
  \<open>load_state_dict\<close> of the \<open>DistributedDataParallel\<close> wrapper. The names in the state dict
  of the wrapper are those of the module with \<open>module.\<close> in front. Loading is strict: a
  name that is missing or not expected raises \<open>RuntimeError\<close>; otherwise every parameter
  of the module takes the tensor stored under its name.
\<close>

definition wrapper_key :: "string \<Rightarrow> string" where
  "wrapper_key k = ''module.'' @ k"

definition load_state_dict :: "'w state_dict \<Rightarrow> 'w state_dict \<Rightarrow> py_error + 'w state_dict" where
  "load_state_dict module_state state_dict =
     (if set (map fst state_dict) = set (map (\<lambda>kw. wrapper_key (fst kw)) module_state)
      then Inr (map (\<lambda>kw. (fst kw, case map_of state_dict (wrapper_key (fst kw)) of
                                      None \<Rightarrow> snd kw | Some w \<Rightarrow> w)) module_state)
      else Inl RuntimeError)"

definition load_snapshot :: "('w, 'o) trainer \<Rightarrow> py_error + ('w, 'o) trainer" where
  "load_snapshot t =
     (case torch_load (storage t) (snapshot_path (config t)) of
        Inl FileNotFoundError \<Rightarrow> Inr (emit [Print Snapshot_not_found] t)
      | Inl e \<Rightarrow> Inl e
      | Inr snapshot \<Rightarrow>
          (case load_state_dict (model t) (model_state snapshot) of
             Inl e \<Rightarrow> Inl e
           | Inr loaded \<Rightarrow>
               Inr (emit [Print (Resuming (finished_epoch snapshot))]
                      (t\<lparr>model := loaded,
                         optimizer := optimizer_state snapshot,
                         epochs_run := finished_epoch snapshot\<rparr>))))"

text \<open>
  The constructor: the ranks and the world size come from the environment of the launcher,
  \<open>model0\<close> is the state dict of the module handed in, and the storage and its directories
  are the world in which the trainer starts.
\<close>

definition Trainer_init ::
  "trainer_config \<Rightarrow> int \<Rightarrow> int \<Rightarrow> int \<Rightarrow> 'w state_dict \<Rightarrow> 'o \<Rightarrow> nat \<Rightarrow> nat \<Rightarrow>
   (string \<rightharpoonup> ('w, 'o) stored_file) \<Rightarrow> (string \<Rightarrow> bool) \<Rightarrow> py_error + ('w, 'o) trainer" where
  "Trainer_init trainer_cfg LOCAL_RANK WORLD_SIZE RANK model0 optimizer0
       train_dataset test_dataset files dirs =
     load_snapshot
       \<lparr>config = (case snapshot_path trainer_cfg of
                    None \<Rightarrow> trainer_cfg\<lparr>snapshot_path := Some ''snapshot.pt''\<rparr>
                  | Some p \<Rightarrow> trainer_cfg),
        local_rank = LOCAL_RANK, world_size = WORLD_SIZE, global_rank = RANK,
        model = model0, optimizer = optimizer0,
        train_dataloader = train_dataset, test_dataloader = test_dataset,
        epochs_run = 0, self_save_every = save_every trainer_cfg,
        storage = files, parent_exists = dirs, events = []\<rparr>"

text \<open>The path that the constructor leaves in the configuration.\<close>

definition resolved_path :: "trainer_config \<Rightarrow> string" where
  "resolved_path trainer_cfg =
     (case snapshot_path trainer_cfg of None \<Rightarrow> ''snapshot.pt'' | Some p \<Rightarrow> p)"

subsection \<open>One batch, one epoch\<close>

definition run_batch ::
  "('w, 'o) optimizer_step \<Rightarrow> batch \<Rightarrow> bool \<Rightarrow> ('w, 'o) trainer \<Rightarrow> ('w, 'o) trainer" where
  "run_batch step b train t =
     (let t1 = emit [Forward train] t in
      if train then
        (let t2 = emit [Zero_grad] t1;
             t3 = (if use_amp (config t2)
                   then emit [Backward True, Clip_grad_norm (grad_norm_clip (config t2)),
                              Scaler_step, Scaler_update] t2
                   else emit [Backward False, Clip_grad_norm (grad_norm_clip (config t2)),
                              Optimizer_step] t2)
         in t3\<lparr>model := fst (step b (model t3, optimizer t3)),
               optimizer := snd (step b (model t3, optimizer t3))\<rparr>)
      else t1)"

text \<open>
  \<open>dist.gather\<close> with \<open>dst=0\<close>: the list to gather into is handed over exactly when the
  local rank is 0, and it has one entry for each worker. The call raises \<open>ValueError\<close> when
  the worker of global rank 0 gets no list, or an empty one, and when any other worker gets
  a list that is not empty.
\<close>

definition gather :: "('w, 'o) trainer \<Rightarrow> ('w, 'o) outcome" where
  "gather t =
     (if (global_rank t = 0) = (local_rank t = 0 \<and> 0 < world_size t)
      then Inr (emit [Gather] t) else Inl (ValueError, t))"

text \<open>The logging at every hundredth iteration.\<close>

definition log_loss :: "int \<Rightarrow> nat \<Rightarrow> bool \<Rightarrow> ('w, 'o) trainer \<Rightarrow> ('w, 'o) outcome" where
  "log_loss epoch iter train t =
     (if iter mod 100 = 0 then
        (if train then Inr (emit [Print (Loss_line (global_rank t) epoch iter train)] t)
         else
           (case gather t of
              Inl e \<Rightarrow> Inl e
            | Inr t1 \<Rightarrow>
                Inr (if local_rank t1 = 0
                     then emit (map (\<lambda>i. Print (Loss_line i epoch iter train))
                                  [0..world_size t1 - 1]) t1
                     else t1)))
      else Inr t)"

fun run_batches ::
  "('w, 'o) optimizer_step \<Rightarrow> int \<Rightarrow> bool \<Rightarrow> nat list \<Rightarrow> ('w, 'o) trainer \<Rightarrow> ('w, 'o) outcome" where
  "run_batches step epoch train [] t = Inr t"
| "run_batches step epoch train (iter # rest) t =
     (case log_loss epoch iter train (run_batch step (epoch, iter) train t) of
        Inl e \<Rightarrow> Inl e
      | Inr t' \<Rightarrow> run_batches step epoch train rest t')"

definition run_epoch ::
  "('w, 'o) optimizer_step \<Rightarrow> int \<Rightarrow> nat \<Rightarrow> bool \<Rightarrow> ('w, 'o) trainer \<Rightarrow> ('w, 'o) outcome" where
  "run_epoch step epoch dataloader train t =
     run_batches step epoch train [0..<dataloader] (emit [Set_epoch train epoch] t)"

subsection \<open>\<open>train\<close>\<close>

text \<open>
  The test of line 162: \<open>and\<close> evaluates \<open>epoch % self.save_every\<close> only on local rank 0,
  where a cadence of 0 raises. An error comes with the state in which it was raised.
\<close>

definition save_if_due :: "int \<Rightarrow> ('w, 'o) trainer \<Rightarrow> ('w, 'o) outcome" where
  "save_if_due epoch t =
     (if local_rank t = 0 then
        (if self_save_every t = 0 then Inl (ZeroDivisionError, t)
         else if epoch mod self_save_every t = 0 then
           (case save_snapshot epoch t of Inl e \<Rightarrow> Inl (e, t) | Inr t' \<Rightarrow> Inr t')
         else Inr t)
      else Inr t)"

text \<open>The body of the loop for one element of \<open>range(self.epochs_run, max_epochs)\<close>.\<close>

definition train_epoch ::
  "('w, 'o) optimizer_step \<Rightarrow> int \<Rightarrow> ('w, 'o) trainer \<Rightarrow> ('w, 'o) outcome" where
  "train_epoch step epoch0 t =
     (let epoch = epoch0 + 1 in
      case run_epoch step epoch (train_dataloader t) True t of
        Inl e \<Rightarrow> Inl e
      | Inr t1 \<Rightarrow>
          (case save_if_due epoch t1 of
             Inl e \<Rightarrow> Inl e
           | Inr t2 \<Rightarrow>
               if test_dataloader t2 \<noteq> 0
               then run_epoch step epoch (test_dataloader t2) False t2 else Inr t2))"

fun train_loop ::
  "('w, 'o) optimizer_step \<Rightarrow> int list \<Rightarrow> ('w, 'o) trainer \<Rightarrow> ('w, 'o) outcome" where
  "train_loop step [] t = Inr t"
| "train_loop step (epoch0 # rest) t =
     (case train_epoch step epoch0 t of
        Inl e \<Rightarrow> Inl e
      | Inr t' \<Rightarrow> train_loop step rest t')"

definition train :: "('w, 'o) optimizer_step \<Rightarrow> ('w, 'o) trainer \<Rightarrow> ('w, 'o) outcome" where
  "train step t = train_loop step [epochs_run t..max_epochs (config t) - 1] t"

subsection \<open>Reading a trace\<close>





text \<open>The state in which a run ended, whether it returned or raised.\<close>

definition last_state :: "('w, 'o) outcome \<Rightarrow> ('w, 'o) trainer" where
  "last_state r = (case r of Inl (e, t) \<Rightarrow> t | Inr t \<Rightarrow> t)"

text \<open>
  A trainer for running the definitions: one parameter, and a step that counts in the
  parameter and in the optimizer state.
\<close>

definition counting_step :: "(nat, nat) optimizer_step" where
  "counting_step b s = (map (\<lambda>kw. (fst kw, Suc (snd kw))) (fst s), Suc (snd s))"

definition sample_config :: trainer_config where
  "sample_config = \<lparr>max_epochs = 4, grad_norm_clip = 1, snapshot_path = None,
                    save_every = 2, use_amp = False\<rparr>"

definition sample_trainer :: "(nat, nat) trainer" where
  "sample_trainer =
     \<lparr>config = sample_config\<lparr>snapshot_path := Some ''snapshot.pt''\<rparr>,
      local_rank = 0, world_size = 1, global_rank = 0, model = [(''w'', 0)], optimizer = 0,
      train_dataloader = 2, test_dataloader = 1, epochs_run = 0, self_save_every = 2,
      storage = Map.empty, parent_exists = (\<lambda>p. True), events = []\<rparr>"

section \<open>Properties of the data preparation\<close>

subsection \<open>Slice assignment and the masking loop\<close>

lemma slice_assign_replicate_length:
  "j \<le> length xs \<Longrightarrow> length (slice_assign xs i j (replicate (j - i) c)) = length xs"
  by (auto simp: slice_assign_def max_def min_def)

lemma slice_assign_replicate_nth:
  assumes "j \<le> length xs" "k < length xs"
  shows "slice_assign xs i j (replicate (j - i) c) ! k = (if i \<le> k \<and> k < j then c else xs ! k)"
proof (cases "i < j")
  case True
  with assms show ?thesis
    by (auto simp: slice_assign_def max_def min_def nth_append)
next
  case False
  then have "slice_assign xs i j (replicate (j - i) c) = xs"
    by (simp add: slice_assign_def max_def)
  with False show ?thesis by auto
qed

lemma mask_message_input_ids: "input_ids (mask_message render ms d idx) = input_ids d"
  by (simp add: mask_message_def)

lemma mask_message_attention_mask: "attention_mask (mask_message render ms d idx) = attention_mask d"
  by (simp add: mask_message_def)

lemma mask_loop_input_ids: "input_ids (mask_loop render ms idxs d) = input_ids d"
  unfolding mask_loop_def
  by (induction idxs arbitrary: d) (simp_all add: mask_message_input_ids)

lemma mask_loop_attention_mask: "attention_mask (mask_loop render ms idxs d) = attention_mask d"
  unfolding mask_loop_def
  by (induction idxs arbitrary: d) (simp_all add: mask_message_attention_mask)

lemma mask_message_length:
  assumes "role (ms ! idx) \<noteq> ''assistant'' \<longrightarrow> message_end_idx render ms idx \<le> length (labels d)"
  shows "length (labels (mask_message render ms d idx)) = length (labels d)"
  using assms by (simp add: mask_message_def slice_assign_replicate_length)

lemma mask_message_nth:
  assumes "role (ms ! idx) \<noteq> ''assistant'' \<longrightarrow> message_end_idx render ms idx \<le> length (labels d)"
    and "i < length (labels d)"
  shows "labels (mask_message render ms d idx) ! i =
           (if in_span render ms i idx then INGORE_INDEX else labels d ! i)"
  using assms by (simp add: mask_message_def in_span_def slice_assign_replicate_nth)

lemma mask_loop_labels:
  assumes "\<forall>idx\<in>set idxs. role (ms ! idx) \<noteq> ''assistant'' \<longrightarrow>
             message_end_idx render ms idx \<le> length (labels d)"
  shows "length (labels (mask_loop render ms idxs d)) = length (labels d) \<and>
         (\<forall>i<length (labels d). labels (mask_loop render ms idxs d) ! i =
            (if \<exists>idx\<in>set idxs. in_span render ms i idx then INGORE_INDEX else labels d ! i))"
  using assms
proof (induction idxs arbitrary: d)
  case Nil
  then show ?case by (simp add: mask_loop_def)
next
  case (Cons a idxs)
  let ?d = "mask_message render ms d a"
  have len: "length (labels ?d) = length (labels d)"
    using Cons.prems by (simp add: mask_message_length)
  have nth: "\<And>i. i < length (labels d) \<Longrightarrow>
      labels ?d ! i = (if in_span render ms i a then INGORE_INDEX else labels d ! i)"
    using Cons.prems by (simp add: mask_message_nth)
  have step: "mask_loop render ms (a # idxs) d = mask_loop render ms idxs ?d"
    by (simp add: mask_loop_def)
  have ih: "length (labels (mask_loop render ms idxs ?d)) = length (labels ?d) \<and>
         (\<forall>i<length (labels ?d). labels (mask_loop render ms idxs ?d) ! i =
            (if \<exists>idx\<in>set idxs. in_span render ms i idx then INGORE_INDEX else labels ?d ! i))"
    using Cons.prems by (intro Cons.IH) (simp add: len)
  show ?case
    unfolding step using ih len nth by auto
qed

lemma spans_fit_iff:
  "spans_fit render ms \<longleftrightarrow>
     (\<forall>idx<length ms. role (ms ! idx) \<noteq> ''assistant'' \<longrightarrow>
        message_end_idx render ms idx \<le> length (render ms True))"
  by (auto simp: spans_fit_def list_all_iff)

lemma masked_iff: "masked render ms i \<longleftrightarrow> (\<exists>idx<length ms. in_span render ms i idx)"
  by (auto simp: masked_def list_ex_iff)

lemma preprocess_None:
  "preprocess_chat_dataset render m \<lparr>max_length = None\<rparr> =
     mask_loop render (conversation m) [0..<length (conversation m)]
       (initial_data render (conversation m))"
  by (simp add: preprocess_chat_dataset_def truncate_data_def initial_data_def Let_def)

lemma preprocess_Some:
  "preprocess_chat_dataset render m \<lparr>max_length = Some n\<rparr> =
     (let d = preprocess_chat_dataset render m \<lparr>max_length = None\<rparr> in
      \<lparr>input_ids = slice_to (input_ids d) n, labels = slice_to (labels d) n,
       attention_mask = slice_to (attention_mask d) n\<rparr>)"
  by (simp add: preprocess_chat_dataset_def truncate_data_def Let_def)

lemma untruncated_input_ids:
  "input_ids (preprocess_chat_dataset render m \<lparr>max_length = None\<rparr>) = render (conversation m) True"
  by (simp add: preprocess_None mask_loop_input_ids initial_data_def)

lemma untruncated_attention_mask:
  "attention_mask (preprocess_chat_dataset render m \<lparr>max_length = None\<rparr>) =
     replicate (length (render (conversation m) True)) 1"
  by (simp add: preprocess_None mask_loop_attention_mask initial_data_def)

lemma untruncated_labels:
  assumes "spans_fit render (conversation m)"
  shows "length (labels (preprocess_chat_dataset render m \<lparr>max_length = None\<rparr>)) =
           length (render (conversation m) True)"
    and "i < length (render (conversation m) True) \<Longrightarrow>
         labels (preprocess_chat_dataset render m \<lparr>max_length = None\<rparr>) ! i =
           (if masked render (conversation m) i then INGORE_INDEX
            else render (conversation m) True ! i)"
proof -
  let ?ms = "conversation m"
  let ?d = "initial_data render ?ms"
  have fit: "\<forall>idx\<in>set [0..<length ?ms]. role (?ms ! idx) \<noteq> ''assistant'' \<longrightarrow>
               message_end_idx render ?ms idx \<le> length (labels ?d)"
    using assms by (simp add: spans_fit_iff initial_data_def)
  note main = mask_loop_labels [OF fit]
  show "length (labels (preprocess_chat_dataset render m \<lparr>max_length = None\<rparr>)) =
           length (render ?ms True)"
    using main by (simp add: preprocess_None initial_data_def)
  assume "i < length (render ?ms True)"
  then have "labels (mask_loop render ?ms [0..<length ?ms] ?d) ! i =
      (if \<exists>idx\<in>set [0..<length ?ms]. in_span render ?ms i idx
       then INGORE_INDEX else labels ?d ! i)"
    using main by (simp add: initial_data_def)
  moreover have "(\<exists>idx\<in>set [0..<length ?ms]. in_span render ?ms i idx) \<longleftrightarrow> masked render ?ms i"
    by (auto simp: masked_iff)
  ultimately show "labels (preprocess_chat_dataset render m \<lparr>max_length = None\<rparr>) ! i =
           (if masked render ?ms i then INGORE_INDEX else render ?ms True ! i)"
    by (simp add: preprocess_None initial_data_def)
qed

lemma length_slice_to_cong: "length xs = length ys \<Longrightarrow> length (slice_to xs n) = length (slice_to ys n)"
  by (simp add: slice_to_def)

lemma cfg_cases: "(\<And>n. P \<lparr>max_length = Some n\<rparr>) \<Longrightarrow> P \<lparr>max_length = None\<rparr> \<Longrightarrow> P (c :: sft_config)"
  by (cases c) (metis option.exhaust old.unit.exhaust)

subsection \<open>Prefix-consistent templates\<close>

lemma prefix_consistent_iff:
  "prefix_consistent render ms \<longleftrightarrow>
     (\<forall>k<length ms. prefix (render (take k ms) False) (render (take (Suc k) ms) False)) \<and>
     (\<forall>k<length ms. role (ms ! k) = ''assistant'' \<longrightarrow>
        prefix (render (take k ms) True) (render (take (Suc k) ms) False)) \<and>
     (\<forall>k\<le>length ms. prefix (render (take k ms) False) (render (take k ms) True))"
  by (auto simp: prefix_consistent_def list_all_iff less_Suc_eq_le)

lemma plain_mono:
  assumes "prefix_consistent render ms" "j \<le> k" "k \<le> length ms"
  shows "length (render (take j ms) False) \<le> length (render (take k ms) False)"
  using assms(2,3)
proof (induction k)
  case 0
  then show ?case by simp
next
  case (Suc k)
  show ?case
  proof (cases "j = Suc k")
    case True
    then show ?thesis by simp
  next
    case False
    with Suc.prems have "j \<le> k" "k < length ms" by simp_all
    then have "length (render (take j ms) False) \<le> length (render (take k ms) False)"
      using Suc.IH by simp
    moreover have "length (render (take k ms) False) \<le> length (render (take (Suc k) ms) False)"
      using assms(1) \<open>k < length ms\<close> by (simp add: prefix_consistent_iff prefix_length_le)
    ultimately show ?thesis by simp
  qed
qed

lemma plain_le_prompt:
  assumes "prefix_consistent render ms" "k \<le> length ms"
  shows "length (render (take k ms) False) \<le> length (render (take k ms) True)"
  using assms by (simp add: prefix_consistent_iff prefix_length_le)

lemma prompt_le_next:
  assumes "prefix_consistent render ms" "k < length ms" "role (ms ! k) = ''assistant''"
  shows "length (render (take k ms) True) \<le> length (render (take (Suc k) ms) False)"
  using assms by (simp add: prefix_consistent_iff prefix_length_le)

lemma message_end_le:
  assumes pc: "prefix_consistent render ms" and j: "j < length ms" and k: "j < k" "k \<le> length ms"
  shows "message_end_idx render ms j \<le>
           length (render (take k ms) (k = Suc j \<and> k < length ms \<and> role (ms ! k) = ''assistant''))"
proof (cases "j < length ms - 1 \<and> role (ms ! (j + 1)) = ''assistant''")
  case True
  then have e: "message_end_idx render ms j = length (render (take (Suc j) ms) True)"
    by (simp add: message_end_idx_def)
  show ?thesis
  proof (cases "k = Suc j")
    case True
    from \<open>j < length ms - 1 \<and> role (ms ! (j + 1)) = ''assistant''\<close>
    have "Suc j < length ms" "role (ms ! Suc j) = ''assistant''" by auto
    with True e show ?thesis by simp
  next
    case False
    with k have "Suc (Suc j) \<le> k" by simp
    have "length (render (take (Suc j) ms) True) \<le> length (render (take (Suc (Suc j)) ms) False)"
      using prompt_le_next [OF pc, of "Suc j"] True by auto
    also have "\<dots> \<le> length (render (take k ms) False)"
      using plain_mono [OF pc \<open>Suc (Suc j) \<le> k\<close> k(2)] .
    finally show ?thesis using e False by simp
  qed
next
  case False
  then have e: "message_end_idx render ms j = length (render (take (Suc j) ms) False)"
    unfolding message_end_idx_def by (simp only: if_False Suc_eq_plus1)
  from k have "Suc j \<le> k" by simp
  have "length (render (take (Suc j) ms) False) \<le> length (render (take k ms) False)"
    using plain_mono [OF pc \<open>Suc j \<le> k\<close> k(2)] .
  moreover have "(k = Suc j \<and> k < length ms \<and> role (ms ! k) = ''assistant'') = False"
    using False by auto
  ultimately show ?thesis using e by (simp only:)
qed

lemma prefix_consistent_spans_fit:
  assumes pc: "prefix_consistent render ms"
  shows "spans_fit render ms"
  unfolding spans_fit_iff
proof (intro allI impI)
  fix idx assume idx: "idx < length ms" and "role (ms ! idx) \<noteq> ''assistant''"
  have "message_end_idx render ms idx \<le> length (render (take (length ms) ms) False)"
    using message_end_le [OF pc idx, of "length ms"] idx by simp
  also have "\<dots> \<le> length (render (take (length ms) ms) True)"
    using plain_le_prompt [OF pc, of "length ms"] by simp
  finally show "message_end_idx render ms idx \<le> length (render ms True)" by simp
qed

lemma assistant_span_not_masked:
  assumes pc: "prefix_consistent render ms"
    and idx: "idx < length ms" "role (ms ! idx) = ''assistant''"
    and i: "assistant_start render ms idx \<le> i" "i < assistant_end render ms idx"
  shows "\<not> masked render ms i"
proof
  assume "masked render ms i"
  then obtain j where j: "j < length ms" "role (ms ! j) \<noteq> ''assistant''"
      "message_start_idx render ms j \<le> i" "i < message_end_idx render ms j"
    by (auto simp: masked_iff in_span_def)
  from j(2) idx(2) have "j \<noteq> idx" by auto
  then consider "j < idx" | "idx < j" by linarith
  then show False
  proof cases
    case 1
    then have pos: "idx \<noteq> 0" by simp
    have "message_end_idx render ms j \<le>
           length (render (take idx ms) (idx = Suc j \<and> idx < length ms \<and> role (ms ! idx) = ''assistant''))"
      using message_end_le [OF pc j(1) 1] idx(1) by simp
    also have "\<dots> \<le> assistant_start render ms idx"
    proof (cases "idx = Suc j")
      case True
      with j(2) idx pos show ?thesis by (simp add: assistant_start_def)
    next
      case False
      have "length (render (take idx ms) False) \<le> length (render (take idx ms) b)" for b
        using plain_le_prompt [OF pc, of idx] idx(1) by (cases b) simp_all
      with False pos show ?thesis by (simp add: assistant_start_def)
    qed
    finally show False using i(1) j(4) by simp
  next
    case 2
    then have "j \<noteq> 0" by simp
    then have "message_start_idx render ms j = length (render (take j ms) False)"
      by (simp add: message_start_idx_def)
    moreover have "length (render (take (Suc idx) ms) False) \<le> length (render (take j ms) False)"
      using plain_mono [OF pc, of "Suc idx" j] 2 j(1) by simp
    ultimately show False using i(2) j(3) by (simp add: assistant_end_def)
  qed
qed

lemma assistant_end_le:
  assumes pc: "prefix_consistent render ms" and idx: "idx < length ms"
  shows "assistant_end render ms idx \<le> length (render ms True)"
proof -
  have "assistant_end render ms idx \<le> length (render (take (length ms) ms) False)"
    unfolding assistant_end_def using plain_mono [OF pc, of "Suc idx" "length ms"] idx by simp
  also have "\<dots> \<le> length (render (take (length ms) ms) True)"
    using plain_le_prompt [OF pc, of "length ms"] by simp
  finally show ?thesis by simp
qed

subsection \<open>Determinism, lengths, frame and truncation\<close>

lemma mask_message_cong:
  assumes "\<forall>k\<le>length ms. \<forall>gp. r1 (take k ms) gp = r2 (take k ms) gp" "idx < length ms"
  shows "mask_message r1 ms d idx = mask_message r2 ms d idx"
proof -
  have "message_start_idx r1 ms idx = message_start_idx r2 ms idx"
    using assms by (simp add: message_start_idx_def)
  moreover have "message_end_idx r1 ms idx = message_end_idx r2 ms idx"
    using assms by (simp add: message_end_idx_def)
  ultimately show ?thesis by (simp add: mask_message_def)
qed

lemma mask_loop_cong:
  assumes "\<forall>k\<le>length ms. \<forall>gp. r1 (take k ms) gp = r2 (take k ms) gp" "\<forall>idx\<in>set idxs. idx < length ms"
  shows "mask_loop r1 ms idxs d = mask_loop r2 ms idxs d"
  using assms(2) unfolding mask_loop_def
proof (induction idxs arbitrary: d)
  case Nil
  then show ?case by simp
next
  case (Cons a idxs)
  then show ?case using mask_message_cong [OF assms(1), of a d] by simp
qed

lemma agree_on_prefixes_iff:
  "agree_on_prefixes r1 r2 ms \<longleftrightarrow> (\<forall>k\<le>length ms. \<forall>gp. r1 (take k ms) gp = r2 (take k ms) gp)"
proof -
  have "agree_on_prefixes r1 r2 ms \<longleftrightarrow>
      (\<forall>k<Suc (length ms). r1 (take k ms) False = r2 (take k ms) False
                            \<and> r1 (take k ms) True = r2 (take k ms) True)"
    by (auto simp: agree_on_prefixes_def list_all_iff simp del: upt_Suc)
  then show ?thesis
    by (auto simp: less_Suc_eq_le all_bool_eq)
qed

text \<open>
  C9. Two calls of \<open>preprocess_chat_dataset\<close> on the same conversation and configuration, whose
  templates answer alike on the prefixes of the conversation, return the same three fields.
\<close>
theorem preprocess_deterministic:
  assumes "agree_on_prefixes render1 render2 (conversation m)"
  shows "preprocess_chat_dataset render1 m cfg = preprocess_chat_dataset render2 m cfg"
proof -
  from assms have agree: "\<forall>k\<le>length (conversation m). \<forall>gp.
      render1 (take k (conversation m)) gp = render2 (take k (conversation m)) gp"
    by (simp add: agree_on_prefixes_iff)
  have full: "render1 (conversation m) True = render2 (conversation m) True"
    using agree [rule_format, of "length (conversation m)" True] by simp
  have "mask_loop render1 (conversation m) [0..<length (conversation m)] d =
        mask_loop render2 (conversation m) [0..<length (conversation m)] d" for d
    by (rule mask_loop_cong [OF agree]) simp
  with full show ?thesis by (simp add: preprocess_chat_dataset_def Let_def)
qed

theorem preprocess_deterministic_witness:
  "agree_on_prefixes sample_template sample_template sample_conversation
   \<and> preprocess_chat_dataset sample_template \<lparr>conversation = sample_conversation\<rparr> \<lparr>max_length = Some 6\<rparr>
     = \<lparr>input_ids = [1, 104, 11, 10, 2, 101],
        labels = [- 100, - 100, - 100, - 100, - 100, 101],
        attention_mask = [1, 1, 1, 1, 1, 1]\<rparr>"
proof -
  have h: "agree_on_prefixes sample_template sample_template
             (conversation \<lparr>conversation = sample_conversation\<rparr>)"
    by code_simp
  have "preprocess_chat_dataset sample_template \<lparr>conversation = sample_conversation\<rparr> \<lparr>max_length = Some 6\<rparr>
     = \<lparr>input_ids = [1, 104, 11, 10, 2, 101],
        labels = [- 100, - 100, - 100, - 100, - 100, 101],
        attention_mask = [1, 1, 1, 1, 1, 1]\<rparr>"
    by code_simp
  with preprocess_deterministic [OF h, of "\<lparr>max_length = Some 6\<rparr>"] h show ?thesis by simp
qed

text \<open>
  C5. For a conversation whose masked spans end inside its rendering, \<open>input_ids\<close>,
  \<open>labels\<close> and \<open>attention_mask\<close> of the result have the same length, whatever the
  configuration: without \<open>max_length\<close> (directly after masking) and with it (after
  truncation).
\<close>
theorem lengths_agree:
  assumes "spans_fit render (conversation m)"
  shows "length (input_ids (preprocess_chat_dataset render m cfg)) =
           length (labels (preprocess_chat_dataset render m cfg))
       \<and> length (labels (preprocess_chat_dataset render m cfg)) =
           length (attention_mask (preprocess_chat_dataset render m cfg))"
proof -
  let ?d = "preprocess_chat_dataset render m \<lparr>max_length = None\<rparr>"
  have a: "length (input_ids ?d) = length (labels ?d)"
    using untruncated_labels(1) [OF assms] by (simp add: untruncated_input_ids)
  have b: "length (labels ?d) = length (attention_mask ?d)"
    using untruncated_labels(1) [OF assms] by (simp add: untruncated_attention_mask)
  show ?thesis
  proof (rule cfg_cases [of _ cfg])
    fix n
    show "length (input_ids (preprocess_chat_dataset render m \<lparr>max_length = Some n\<rparr>)) =
           length (labels (preprocess_chat_dataset render m \<lparr>max_length = Some n\<rparr>))
       \<and> length (labels (preprocess_chat_dataset render m \<lparr>max_length = Some n\<rparr>)) =
           length (attention_mask (preprocess_chat_dataset render m \<lparr>max_length = Some n\<rparr>))"
      using length_slice_to_cong [OF a, of n] length_slice_to_cong [OF b, of n]
      by (simp add: preprocess_Some Let_def)
  next
    show "length (input_ids ?d) = length (labels ?d) \<and> length (labels ?d) = length (attention_mask ?d)"
      using a b by simp
  qed
qed

text \<open>
  C10. The loop changes \<open>labels\<close> only: for any list of turns visited, \<open>input_ids\<close> and
  \<open>attention_mask\<close> are what they were before the loop, so that without truncation
  \<open>input_ids\<close> is the rendering of the whole conversation with generation prompt and
  \<open>attention_mask\<close> is as many ones.
\<close>
theorem masking_frame:
  "input_ids (mask_loop render msgs idxs data) = input_ids data
   \<and> attention_mask (mask_loop render msgs idxs data) = attention_mask data
   \<and> input_ids (preprocess_chat_dataset render m \<lparr>max_length = None\<rparr>) = render (conversation m) True
   \<and> attention_mask (preprocess_chat_dataset render m \<lparr>max_length = None\<rparr>) =
       replicate (length (render (conversation m) True)) 1"
  by (simp add: mask_loop_input_ids mask_loop_attention_mask untruncated_input_ids
      untruncated_attention_mask)

theorem masking_frame_witness:
  "input_ids (preprocess_chat_dataset sample_template \<lparr>conversation = sample_conversation\<rparr>
      \<lparr>max_length = None\<rparr>) = [1, 104, 11, 10, 2, 101, 11, 10, 2]
   \<and> attention_mask (preprocess_chat_dataset sample_template
       \<lparr>conversation = sample_conversation\<rparr> \<lparr>max_length = None\<rparr>) = [1, 1, 1, 1, 1, 1, 1, 1, 1]"
proof -
  have full: "sample_template sample_conversation True = [1, 104, 11, 10, 2, 101, 11, 10, 2]"
    by code_simp
  have ones: "replicate (length [1, 104, 11, 10, 2, 101, 11, 10, 2 :: int]) (1::int) =
      [1, 1, 1, 1, 1, 1, 1, 1, 1]"
    by code_simp
  note F = masking_frame [of sample_template "[]" "[]" "initial_data sample_template []"
      "\<lparr>conversation = sample_conversation\<rparr>", THEN conjunct2, THEN conjunct2]
  from F show ?thesis by (simp add: full ones)
qed

text \<open>
  C6. With a bound \<open>n\<close> that is not negative, each of the three fields of the result is the
  first \<open>n\<close> elements of the same field of the result without bound; when \<open>n\<close> is at most
  the full length, \<open>n\<close> elements remain. Without a bound the input ids are the whole
  rendering.
\<close>
theorem truncation_law:
  assumes "0 \<le> n"
  shows "input_ids (preprocess_chat_dataset render m \<lparr>max_length = Some n\<rparr>) =
           take (nat n) (input_ids (preprocess_chat_dataset render m \<lparr>max_length = None\<rparr>))
       \<and> labels (preprocess_chat_dataset render m \<lparr>max_length = Some n\<rparr>) =
           take (nat n) (labels (preprocess_chat_dataset render m \<lparr>max_length = None\<rparr>))
       \<and> attention_mask (preprocess_chat_dataset render m \<lparr>max_length = Some n\<rparr>) =
           take (nat n) (attention_mask (preprocess_chat_dataset render m \<lparr>max_length = None\<rparr>))
       \<and> (n \<le> int (length (input_ids (preprocess_chat_dataset render m \<lparr>max_length = None\<rparr>))) \<longrightarrow>
            length (input_ids (preprocess_chat_dataset render m \<lparr>max_length = Some n\<rparr>)) = nat n)
       \<and> input_ids (preprocess_chat_dataset render m \<lparr>max_length = None\<rparr>) = render (conversation m) True"
  using assms by (auto simp: preprocess_Some Let_def slice_to_def untruncated_input_ids)

subsection \<open>Masked spans\<close>

lemma scenario_labels:
  assumes "length (render [u] True) = 5" "length (render [u, a] True) = 9"
    "role u = ''user''" "role a = ''assistant''"
  shows "labels (preprocess_chat_dataset render \<lparr>conversation = [u, a]\<rparr> \<lparr>max_length = None\<rparr>) =
           replicate 5 INGORE_INDEX @ drop 5 (render [u, a] True)"
proof -
  have s0: "message_start_idx render [u, a] 0 = 0"
    by (simp add: message_start_idx_def)
  have e0: "message_end_idx render [u, a] 0 = 5"
    using assms by (simp add: message_end_idx_def)
  have m0: "mask_message render [u, a] d 0 =
      d\<lparr>labels := replicate 5 INGORE_INDEX @ drop 5 (labels d)\<rparr>" for d
    using assms by (simp add: mask_message_def s0 e0 slice_assign_def)
  have m1: "mask_message render [u, a] d (Suc 0) = d" for d
    using assms by (simp add: mask_message_def)
  have "mask_loop render [u, a] [0..<length [u, a]] d =
      d\<lparr>labels := replicate 5 INGORE_INDEX @ drop 5 (labels d)\<rparr>" for d
    by (simp add: mask_loop_def m0 m1)
  then show ?thesis
    by (simp add: preprocess_None initial_data_def)
qed

lemma message_end_idx_eq:
  "message_end_idx render ms idx =
     length (render (take (idx + 1) ms) (idx + 1 < length ms \<and> role (ms ! (idx + 1)) = ''assistant''))"
proof (cases "idx + 1 < length ms \<and> role (ms ! (idx + 1)) = ''assistant''")
  case True
  then have e: "(idx + 1 < length ms \<and> role (ms ! (idx + 1)) = ''assistant'') = True"
    "(idx < length ms - 1 \<and> role (ms ! (idx + 1)) = ''assistant'') = True"
    by auto
  show ?thesis unfolding message_end_idx_def e by simp
next
  case False
  then have e: "(idx + 1 < length ms \<and> role (ms ! (idx + 1)) = ''assistant'') = False"
    "(idx < length ms - 1 \<and> role (ms ! (idx + 1)) = ''assistant'') = False"
    by auto
  show ?thesis unfolding message_end_idx_def e by simp
qed

lemma spans_fit_rendered:
  "spans_fit render ms \<longleftrightarrow>
     (\<forall>idx<length ms. role (ms ! idx) \<noteq> ''assistant'' \<longrightarrow>
        length (render (take (idx + 1) ms)
                  (idx + 1 < length ms \<and> role (ms ! (idx + 1)) = ''assistant''))
        \<le> length (render ms True))"
  by (simp only: spans_fit_iff message_end_idx_eq)

lemma masked_rendered:
  "masked render ms i \<longleftrightarrow>
     (\<exists>idx<length ms. role (ms ! idx) \<noteq> ''assistant''
        \<and> (if idx = 0 then 0 else length (render (take idx ms) False)) \<le> i
        \<and> i < length (render (take (idx + 1) ms)
                    (idx + 1 < length ms \<and> role (ms ! (idx + 1)) = ''assistant'')))"
  by (simp only: masked_iff in_span_def message_end_idx_eq message_start_idx_def)

text \<open>
  C1. Let every turn that is not an assistant turn have the rendering of the conversation up to
  and including it, taken with the generation prompt exactly when the next turn is an
  assistant turn, no longer than the rendering of the whole conversation. Then for each such
  turn \<open>labels[start:end]\<close> is \<open>-100\<close>, where \<open>start\<close> is the length of the rendering of
  the turns before it without generation prompt (0 for the first turn) and \<open>end\<close> the length
  just described. Every position in none of these spans keeps its input id, and so does every
  position of an assistant turn when the template is prefix consistent. With rendering
  lengths 0, 5, 3 and 9 for a user turn followed by an assistant turn, the labels are five
  times \<open>-100\<close> followed by \<open>input_ids[5:9]\<close>.
\<close>
theorem masking_spans:
  assumes "\<forall>idx<length msgs. role (msgs ! idx) \<noteq> ''assistant'' \<longrightarrow>
             length (render (take (idx + 1) msgs)
                       (idx + 1 < length msgs \<and> role (msgs ! (idx + 1)) = ''assistant''))
             \<le> length (render msgs True)"
  shows "input_ids (preprocess_chat_dataset render \<lparr>conversation = msgs\<rparr> \<lparr>max_length = None\<rparr>) =
           render msgs True
       \<and> length (labels (preprocess_chat_dataset render \<lparr>conversation = msgs\<rparr>
                          \<lparr>max_length = None\<rparr>)) = length (render msgs True)
       \<and> (\<forall>idx<length msgs. role (msgs ! idx) \<noteq> ''assistant'' \<longrightarrow>
            (\<forall>i. (if idx = 0 then 0 else length (render (take idx msgs) False)) \<le> i
                 \<and> i < length (render (take (idx + 1) msgs)
                             (idx + 1 < length msgs \<and> role (msgs ! (idx + 1)) = ''assistant''))
               \<longrightarrow> labels (preprocess_chat_dataset render \<lparr>conversation = msgs\<rparr>
                              \<lparr>max_length = None\<rparr>) ! i = - 100))
       \<and> (\<forall>i<length (render msgs True).
            (\<forall>idx<length msgs. role (msgs ! idx) \<noteq> ''assistant'' \<longrightarrow>
               \<not> ((if idx = 0 then 0 else length (render (take idx msgs) False)) \<le> i
                  \<and> i < length (render (take (idx + 1) msgs)
                              (idx + 1 < length msgs \<and> role (msgs ! (idx + 1)) = ''assistant''))))
            \<longrightarrow> labels (preprocess_chat_dataset render \<lparr>conversation = msgs\<rparr>
                           \<lparr>max_length = None\<rparr>) ! i = render msgs True ! i)
       \<and> (prefix_consistent render msgs \<longrightarrow>
            (\<forall>idx<length msgs. role (msgs ! idx) = ''assistant'' \<longrightarrow>
               (\<forall>i. assistant_start render msgs idx \<le> i \<and> i < assistant_end render msgs idx
                  \<longrightarrow> i < length (render msgs True)
                      \<and> labels (preprocess_chat_dataset render \<lparr>conversation = msgs\<rparr>
                                 \<lparr>max_length = None\<rparr>) ! i = render msgs True ! i)))
       \<and> (role u = ''user'' \<and> role a = ''assistant''
          \<and> length (render' [] False) = 0 \<and> length (render' [u] True) = 5
          \<and> length (render' [u] False) = 3 \<and> length (render' [u, a] True) = 9 \<longrightarrow>
            labels (preprocess_chat_dataset render' \<lparr>conversation = [u, a]\<rparr> \<lparr>max_length = None\<rparr>) =
              replicate 5 (- 100) @ drop 5 (render' [u, a] True)
            \<and> input_ids (preprocess_chat_dataset render' \<lparr>conversation = [u, a]\<rparr>
                           \<lparr>max_length = None\<rparr>) = render' [u, a] True)"
proof -
  let ?m = "\<lparr>conversation = msgs\<rparr>"
  let ?d = "preprocess_chat_dataset render ?m \<lparr>max_length = None\<rparr>"
  have sel: "conversation ?m = msgs" by simp
  have fit: "spans_fit render (conversation ?m)"
    unfolding sel spans_fit_rendered using assms .
  note len = untruncated_labels(1) [OF fit, unfolded sel]
  note nth = untruncated_labels(2) [OF fit, unfolded sel]
  have ids: "input_ids ?d = render msgs True"
    using untruncated_input_ids [of render ?m] by simp
  have A: "labels ?d ! i = - 100"
    if "idx < length msgs" "role (msgs ! idx) \<noteq> ''assistant''"
      "(if idx = 0 then 0 else length (render (take idx msgs) False)) \<le> i"
      "i < length (render (take (idx + 1) msgs)
                    (idx + 1 < length msgs \<and> role (msgs ! (idx + 1)) = ''assistant''))" for idx i
  proof -
    have "length (render (take (idx + 1) msgs)
                    (idx + 1 < length msgs \<and> role (msgs ! (idx + 1)) = ''assistant''))
          \<le> length (render msgs True)"
      using assms that(1,2) by blast
    with that(4) have i: "i < length (render msgs True)" by simp
    have "masked render msgs i"
      unfolding masked_rendered using that by blast
    with nth [OF i] show ?thesis by (simp add: INGORE_INDEX_def)
  qed
  have B: "labels ?d ! i = render msgs True ! i"
    if "i < length (render msgs True)"
      "\<forall>idx<length msgs. role (msgs ! idx) \<noteq> ''assistant'' \<longrightarrow>
         \<not> ((if idx = 0 then 0 else length (render (take idx msgs) False)) \<le> i
            \<and> i < length (render (take (idx + 1) msgs)
                        (idx + 1 < length msgs \<and> role (msgs ! (idx + 1)) = ''assistant'')))" for i
  proof -
    have "\<not> masked render msgs i"
      unfolding masked_rendered using that(2) by blast
    with nth [OF that(1)] show ?thesis by simp
  qed
  have C: "i < length (render msgs True) \<and> labels ?d ! i = render msgs True ! i"
    if pc: "prefix_consistent render msgs" and "idx < length msgs"
      "role (msgs ! idx) = ''assistant''"
      "assistant_start render msgs idx \<le> i" "i < assistant_end render msgs idx" for idx i
  proof -
    have "\<not> masked render msgs i"
      using assistant_span_not_masked [OF pc that(2-5)] .
    moreover have i: "i < length (render msgs True)"
      using assistant_end_le [OF pc that(2)] that(5) by simp
    ultimately show ?thesis using nth [OF i] by simp
  qed
  have D: "labels (preprocess_chat_dataset render' \<lparr>conversation = [u, a]\<rparr> \<lparr>max_length = None\<rparr>) =
              replicate 5 (- 100) @ drop 5 (render' [u, a] True)"
    if "role u = ''user''" "role a = ''assistant''" "length (render' [u] True) = 5"
      "length (render' [u, a] True) = 9"
    using scenario_labels [of render' u a] that by (simp add: INGORE_INDEX_def)
  have E: "input_ids (preprocess_chat_dataset render' \<lparr>conversation = [u, a]\<rparr> \<lparr>max_length = None\<rparr>) =
              render' [u, a] True"
    by (simp add: untruncated_input_ids)
  show ?thesis
    apply (intro conjI allI impI)
    subgoal by (rule ids)
    subgoal by (rule len)
    subgoal for idx i using A [of idx i] by blast
    subgoal for i using B [of i] by blast
    subgoal for idx i using C [of idx i] by blast
    subgoal for idx i using C [of idx i] by blast
    subgoal using D by blast
    subgoal by (rule E)
    done
qed

theorem masking_spans_witness:
  "spans_fit sample_template sample_dialogue
   \<and> prefix_consistent sample_template sample_dialogue
   \<and> sample_template sample_dialogue True =
       [1, 104, 11, 10, 2, 101, 11, 1, 104, 11, 10, 2, 103, 11, 10, 2]
   \<and> length (sample_template (take 2 sample_dialogue) False) = 7
   \<and> length (sample_template (take 3 sample_dialogue) True) = 12
   \<and> labels (preprocess_chat_dataset sample_template \<lparr>conversation = sample_dialogue\<rparr>
         \<lparr>max_length = None\<rparr>) ! 9 = - 100
   \<and> labels (preprocess_chat_dataset sample_template \<lparr>conversation = sample_dialogue\<rparr>
         \<lparr>max_length = None\<rparr>) ! 12 = 103
   \<and> labels (preprocess_chat_dataset sample_template \<lparr>conversation = sample_dialogue\<rparr>
         \<lparr>max_length = None\<rparr>) ! 14 = 10
   \<and> labels (preprocess_chat_dataset sample_template \<lparr>conversation = sample_dialogue\<rparr>
         \<lparr>max_length = None\<rparr>) =
       [- 100, - 100, - 100, - 100, - 100, 101, 11, - 100, - 100, - 100, - 100, - 100, 103, 11, 10, 2]
   \<and> length (sample_template [] False) = 0
   \<and> length (sample_template (take 1 sample_conversation) True) = 5
   \<and> length (sample_template (take 1 sample_conversation) False) = 3
   \<and> length (sample_template sample_conversation True) = 9
   \<and> labels (preprocess_chat_dataset sample_template \<lparr>conversation = sample_conversation\<rparr>
         \<lparr>max_length = None\<rparr>) = [- 100, - 100, - 100, - 100, - 100, 101, 11, 10, 2]"
proof -
  let ?u = "\<lparr>role = ''user'', content = ''2+2?''\<rparr>"
  let ?a = "\<lparr>role = ''assistant'', content = ''4''\<rparr>"
  let ?d = "preprocess_chat_dataset sample_template \<lparr>conversation = sample_dialogue\<rparr>
              \<lparr>max_length = None\<rparr>"
  let ?c = "preprocess_chat_dataset sample_template \<lparr>conversation = sample_conversation\<rparr>
              \<lparr>max_length = None\<rparr>"
  have conv: "sample_conversation = [?u, ?a]"
    by (simp add: sample_conversation_def)
  have fit: "spans_fit sample_template sample_dialogue"
    by code_simp
  have pc: "prefix_consistent sample_template sample_dialogue"
    by code_simp
  have full: "sample_template sample_dialogue True =
      [1, 104, 11, 10, 2, 101, 11, 1, 104, 11, 10, 2, 103, 11, 10, 2]"
    by code_simp
  have bounds: "length (sample_template (take 2 sample_dialogue) False) = 7"
    "length (sample_template (take 3 sample_dialogue) True) = 12"
    by code_simp+
  have turn2: "2 < length sample_dialogue" "role (sample_dialogue ! 2) \<noteq> ''assistant''"
    "(if (2::nat) = 0 then 0 else length (sample_template (take 2 sample_dialogue) False)) \<le> 9
     \<and> 9 < length (sample_template (take (2 + 1) sample_dialogue)
                  (2 + 1 < length sample_dialogue
                   \<and> role (sample_dialogue ! (2 + 1)) = ''assistant''))"
    by code_simp+
  have turn3: "3 < length sample_dialogue" "role (sample_dialogue ! 3) = ''assistant''"
    "assistant_start sample_template sample_dialogue 3 \<le> 12
     \<and> 12 < assistant_end sample_template sample_dialogue 3"
    by code_simp+
  have "\<not> masked sample_template sample_dialogue 14"
    by code_simp
  then have free14: "\<forall>idx<length sample_dialogue. role (sample_dialogue ! idx) \<noteq> ''assistant'' \<longrightarrow>
      \<not> ((if idx = 0 then 0 else length (sample_template (take idx sample_dialogue) False)) \<le> 14
         \<and> 14 < length (sample_template (take (idx + 1) sample_dialogue)
                       (idx + 1 < length sample_dialogue
                        \<and> role (sample_dialogue ! (idx + 1)) = ''assistant'')))"
    unfolding masked_rendered by blast
  have in14: "14 < length (sample_template sample_dialogue True)"
    by code_simp
  have lens: "length (sample_template [] False) = 0"
    "length (sample_template [?u] True) = 5"
    "length (sample_template [?u] False) = 3"
    "length (sample_template [?u, ?a] True) = 9"
    by code_simp+
  have roles: "role ?u = ''user''" "role ?a = ''assistant''"
    by simp_all
  have short: "sample_template [?u, ?a] True = [1, 104, 11, 10, 2, 101, 11, 10, 2]"
    by code_simp
  note T = masking_spans [of sample_dialogue sample_template ?u ?a sample_template,
      OF fit [unfolded spans_fit_rendered]]
  have r9: "labels ?d ! 9 = - 100"
    using T [THEN conjunct2, THEN conjunct2, THEN conjunct1, rule_format, of 2 9, OF turn2] .
  have r12: "labels ?d ! 12 = sample_template sample_dialogue True ! 12"
    using T [THEN conjunct2, THEN conjunct2, THEN conjunct2, THEN conjunct2, THEN conjunct1,
        rule_format, of 3 12, OF pc turn3]
    by simp
  have r14: "labels ?d ! 14 = sample_template sample_dialogue True ! 14"
    using T [THEN conjunct2, THEN conjunct2, THEN conjunct2, THEN conjunct1,
        rule_format, of 14, OF in14 free14 [rule_format]] .
  have whole: "labels ?d =
      [- 100, - 100, - 100, - 100, - 100, 101, 11, - 100, - 100, - 100, - 100, - 100, 103, 11, 10, 2]"
    by code_simp
  have r2: "labels (preprocess_chat_dataset sample_template \<lparr>conversation = [?u, ?a]\<rparr>
      \<lparr>max_length = None\<rparr>) = replicate 5 (- 100) @ drop 5 (sample_template [?u, ?a] True)"
    using T [THEN conjunct2, THEN conjunct2, THEN conjunct2, THEN conjunct2, THEN conjunct2,
        rule_format] roles lens
    by simp
  have two: "labels ?c = [- 100, - 100, - 100, - 100, - 100, 101, 11, 10, 2]"
    unfolding conv r2 short by (simp add: numeral_eq_Suc)
  have v12: "labels ?d ! 12 = 103" using r12 unfolding full by simp
  have v14: "labels ?d ! 14 = 10" using r14 unfolding full by simp
  show ?thesis
    using fit pc full bounds r9 v12 v14 whole lens two by (simp add: conv)
qed

theorem lengths_agree_witness:
  "spans_fit sample_template sample_conversation
   \<and> length (input_ids (preprocess_chat_dataset sample_template
        \<lparr>conversation = sample_conversation\<rparr> \<lparr>max_length = Some 6\<rparr>)) = 6
   \<and> length (labels (preprocess_chat_dataset sample_template
        \<lparr>conversation = sample_conversation\<rparr> \<lparr>max_length = Some 6\<rparr>)) = 6
   \<and> length (attention_mask (preprocess_chat_dataset sample_template
        \<lparr>conversation = sample_conversation\<rparr> \<lparr>max_length = Some 6\<rparr>)) = 6"
proof -
  have fit: "spans_fit sample_template (conversation \<lparr>conversation = sample_conversation\<rparr>)"
    by code_simp
  have "length (input_ids (preprocess_chat_dataset sample_template
        \<lparr>conversation = sample_conversation\<rparr> \<lparr>max_length = Some 6\<rparr>)) = 6"
    by code_simp
  with lengths_agree [OF fit, of "\<lparr>max_length = Some 6\<rparr>"] fit show ?thesis
    by simp
qed

theorem truncation_law_witness:
  "(0::int) \<le> 6
   \<and> 6 \<le> int (length (input_ids (preprocess_chat_dataset sample_template
        \<lparr>conversation = sample_conversation\<rparr> \<lparr>max_length = None\<rparr>)))
   \<and> preprocess_chat_dataset sample_template \<lparr>conversation = sample_conversation\<rparr>
        \<lparr>max_length = Some 6\<rparr>
     = \<lparr>input_ids = take 6 [1, 104, 11, 10, 2, 101, 11, 10, 2],
        labels = take 6 [- 100, - 100, - 100, - 100, - 100, 101, 11, 10, 2],
        attention_mask = take 6 [1, 1, 1, 1, 1, 1, 1, 1, 1]\<rparr>"
proof -
  let ?m = "\<lparr>conversation = sample_conversation\<rparr>"
  have h: "(0::int) \<le> 6" by simp
  have full: "preprocess_chat_dataset sample_template ?m \<lparr>max_length = None\<rparr> =
      \<lparr>input_ids = [1, 104, 11, 10, 2, 101, 11, 10, 2],
       labels = [- 100, - 100, - 100, - 100, - 100, 101, 11, 10, 2],
       attention_mask = [1, 1, 1, 1, 1, 1, 1, 1, 1]\<rparr>"
    by code_simp
  have "preprocess_chat_dataset sample_template ?m \<lparr>max_length = Some 6\<rparr> =
      \<lparr>input_ids = take 6 [1, 104, 11, 10, 2, 101, 11, 10, 2],
       labels = take 6 [- 100, - 100, - 100, - 100, - 100, 101, 11, 10, 2],
       attention_mask = take 6 [1, 1, 1, 1, 1, 1, 1, 1, 1]\<rparr>"
  proof -
    note L = truncation_law [OF h, of sample_template ?m, unfolded full]
    show ?thesis
      using L [THEN conjunct1] L [THEN conjunct2, THEN conjunct1]
        L [THEN conjunct2, THEN conjunct2, THEN conjunct1]
      by (intro tokenized.equality) simp_all
  qed
  then show ?thesis using full by simp
qed

subsection \<open>The conversation formatter\<close>

text \<open>
  C8. For a record with a question, a rationale and a response, \<open>apply_input_output_template\<close>
  returns the conversation of two turns: a user turn holding the question between two line
  breaks, and an assistant turn holding the rationale under the heading \<open># Thinking\<close>
  followed by the response under the heading \<open>## Final Response\<close>. The result is a function
  of the three fields only.
\<close>
theorem formatter_output:
  assumes "example ''Question'' = Some question" "example ''Complex_CoT'' = Some complex_cot"
    "example ''Response'' = Some response"
  shows "apply_input_output_template example =
           Inr \<lparr>conversation =
                 [\<lparr>role = ''user'', content = nl @ question @ nl\<rparr>,
                  \<lparr>role = ''assistant'',
                   content = nl @ ''# Thinking'' @ nl @ nl @ nl @ complex_cot @ nl @ nl @ nl @
                             ''## Final Response'' @ nl @ nl @ nl @ response @ nl\<rparr>]\<rparr>"
  using assms
  by (simp add: apply_input_output_template_def getitem_def prompt_template_def
      response_template_def)

theorem formatter_output_witness:
  "[''Question'' \<mapsto> ''2+2?'', ''Complex_CoT'' \<mapsto> ''add'', ''Response'' \<mapsto> ''4''] ''Question'' = Some ''2+2?''
   \<and> [''Question'' \<mapsto> ''2+2?'', ''Complex_CoT'' \<mapsto> ''add'', ''Response'' \<mapsto> ''4''] ''Complex_CoT'' = Some ''add''
   \<and> [''Question'' \<mapsto> ''2+2?'', ''Complex_CoT'' \<mapsto> ''add'', ''Response'' \<mapsto> ''4''] ''Response'' = Some ''4''
   \<and> apply_input_output_template
        [''Question'' \<mapsto> ''2+2?'', ''Complex_CoT'' \<mapsto> ''add'', ''Response'' \<mapsto> ''4''] =
       Inr \<lparr>conversation =
             [\<lparr>role = ''user'', content = nl @ ''2+2?'' @ nl\<rparr>,
              \<lparr>role = ''assistant'',
               content = nl @ ''# Thinking'' @ nl @ nl @ nl @ ''add'' @ nl @ nl @ nl @
                         ''## Final Response'' @ nl @ nl @ nl @ ''4'' @ nl\<rparr>]\<rparr>"
proof -
  let ?ex = "[''Question'' \<mapsto> ''2+2?'', ''Complex_CoT'' \<mapsto> ''add'', ''Response'' \<mapsto> ''4'']"
  have h: "?ex ''Question'' = Some ''2+2?''" "?ex ''Complex_CoT'' = Some ''add''"
    "?ex ''Response'' = Some ''4''"
    by simp_all
  show ?thesis by (intro conjI h formatter_output [OF h])
qed

section \<open>Properties of the trainer\<close>

subsection \<open>Batches and epochs\<close>










lemma run_batch_events:
  "events (run_batch step b tr t) = events t @
     (if tr then
        [Forward True, Zero_grad] @
        (if use_amp (config t)
         then [Backward True, Clip_grad_norm (grad_norm_clip (config t)), Scaler_step, Scaler_update]
         else [Backward False, Clip_grad_norm (grad_norm_clip (config t)), Optimizer_step])
      else [Forward False])"
  by (simp add: run_batch_def emit_def Let_def)

lemma run_batch_eval:
  "model (run_batch step b False t) = model t" "optimizer (run_batch step b False t) = optimizer t"
  by (simp_all add: run_batch_def emit_def Let_def)











lemma save_snapshot_Inr:
  assumes "save_snapshot e t = Inr t'"
  shows "\<exists>p. snapshot_path (config t) = Some p \<and> parent_exists t p
    \<and> t' = t\<lparr>storage := (storage t)(p \<mapsto> Snapshot_file
              \<lparr>model_state = model t, optimizer_state = optimizer t, finished_epoch = e\<rparr>),
            events := events t @ [Torch_save p e, Print (Snapshot_saved e)]\<rparr>"
  using assms
  by (auto simp: save_snapshot_def emit_def Let_def split: option.splits if_splits)




subsection \<open>The epoch loop\<close>






subsection \<open>Loading a snapshot\<close>

text \<open>No finite set of names is the set of its own names with \<open>module.\<close> in front.\<close>

lemma own_keys_rejected:
  assumes "ks \<noteq> []"
  shows "set ks \<noteq> set (map (\<lambda>k. ''module.'' @ k) ks)"
proof
  assume eq: "set ks = set (map (\<lambda>k. ''module.'' @ k) ks)"
  from assms obtain k0 where "k0 \<in> set ks" by (cases ks) auto
  then have "\<exists>x. x \<in> set ks \<and> (\<forall>y. y \<in> set ks \<longrightarrow> length x \<le> length y)"
    by (rule ex_has_least_nat [where P = "\<lambda>x. x \<in> set ks" and m = length])
  then obtain k where k: "k \<in> set ks" "\<forall>y. y \<in> set ks \<longrightarrow> length k \<le> length y"
    by (elim exE conjE)
  from k(1) have "k \<in> set (map (\<lambda>k. ''module.'' @ k) ks)"
    by (simp only: eq [symmetric])
  then obtain k' where k': "k' \<in> set ks" "k = ''module.'' @ k'"
    by (auto simp only: set_map image_iff)
  from k(2) k'(1) have "length k \<le> length k'" by (elim allE impE)
  moreover have "length k = 7 + length k'"
    unfolding k'(2) by simp
  ultimately show False by simp
qed

lemma load_state_dict_own:
  assumes "m \<noteq> []" "map fst sd = map fst m"
  shows "load_state_dict m sd = Inl RuntimeError"
proof -
  have "map (\<lambda>kw. wrapper_key (fst kw)) m = map (\<lambda>k. ''module.'' @ k) (map fst m)"
    by (simp add: wrapper_key_def)
  moreover have "set (map fst m) \<noteq> set (map (\<lambda>k. ''module.'' @ k) (map fst m))"
    using assms(1) by (intro own_keys_rejected) simp
  ultimately show ?thesis
    unfolding load_state_dict_def using assms(2) by simp
qed

lemma load_state_dict_wrapped:
  assumes "set (map fst sd) = set (map (\<lambda>kw. ''module.'' @ fst kw) m)"
  shows "load_state_dict m sd =
     Inr (map (\<lambda>kw. (fst kw, case map_of sd (''module.'' @ fst kw) of
                                None \<Rightarrow> snd kw | Some w \<Rightarrow> w)) m)"
  using assms by (simp add: load_state_dict_def wrapper_key_def)

lemma Trainer_init_path:
  "snapshot_path (case snapshot_path c of None \<Rightarrow> c\<lparr>snapshot_path := Some ''snapshot.pt''\<rparr> | Some p \<Rightarrow> c)
     = Some (resolved_path c)"
  by (simp add: resolved_path_def split: option.splits)

lemma Trainer_init_absent:
  assumes "files (resolved_path c) = None"
  shows "\<exists>t. Trainer_init c lr ws gr m0 o0 ntr nte files dirs = Inr t
    \<and> epochs_run t = 0 \<and> model t = m0 \<and> optimizer t = o0
    \<and> events t = [Print Snapshot_not_found] \<and> storage t = files"
  using assms
  by (simp add: Trainer_init_def load_snapshot_def torch_load_def Trainer_init_path emit_def)

lemma Trainer_init_own:
  assumes "files (resolved_path c) = Some (Snapshot_file s)" "m0 \<noteq> []"
    "map fst (model_state s) = map fst m0"
  shows "Trainer_init c lr ws gr m0 o0 ntr nte files dirs = Inl RuntimeError"
  using assms load_state_dict_own [OF assms(2,3)]
  by (simp add: Trainer_init_def load_snapshot_def torch_load_def Trainer_init_path)

lemma Trainer_init_wrapped:
  assumes "files (resolved_path c) = Some (Snapshot_file s)"
    "set (map fst (model_state s)) = set (map (\<lambda>kw. ''module.'' @ fst kw) m0)"
  shows "\<exists>t. Trainer_init c lr ws gr m0 o0 ntr nte files dirs = Inr t
    \<and> epochs_run t = finished_epoch s \<and> optimizer t = optimizer_state s
    \<and> model t = map (\<lambda>kw. (fst kw, case map_of (model_state s) (''module.'' @ fst kw) of
                                       None \<Rightarrow> snd kw | Some w \<Rightarrow> w)) m0
    \<and> events t = [Print (Resuming (finished_epoch s))] \<and> storage t = files"
  using assms(1) load_state_dict_wrapped [OF assms(2)]
  by (simp add: Trainer_init_def load_snapshot_def torch_load_def Trainer_init_path emit_def)

subsection \<open>Training step, snapshot cadence and the epoch counter\<close>

text \<open>
  C3, as the code has it. One call of \<open>_run_batch\<close> first computes the forward loss; when
  training it then zeroes the gradients, backpropagates (through the scaler when \<open>use_amp\<close> is
  set), clips the gradient norm to \<open>grad_norm_clip\<close> and steps the optimizer (through the
  scaler, which is then updated, when \<open>use_amp\<close> is set). Without training only the forward
  pass is made, and parameters and optimizer state are unchanged.
\<close>
theorem training_step_order:
  "events (run_batch step b is_train t) = events t @
     (if is_train then
        [Forward True, Zero_grad] @
        (if use_amp (config t)
         then [Backward True, Clip_grad_norm (grad_norm_clip (config t)), Scaler_step, Scaler_update]
         else [Backward False, Clip_grad_norm (grad_norm_clip (config t)), Optimizer_step])
      else [Forward False])
   \<and> (\<not> is_train \<longrightarrow>
        model (run_batch step b is_train t) = model t
        \<and> optimizer (run_batch step b is_train t) = optimizer t)"
  by (simp add: run_batch_events run_batch_eval)

theorem training_step_order_witness:
  "\<not> False
   \<and> events (run_batch counting_step (1, 0) False sample_trainer) = [Forward False]
   \<and> model (run_batch counting_step (1, 0) False sample_trainer) = [(''w'', 0)]
   \<and> optimizer (run_batch counting_step (1, 0) False sample_trainer) = 0
   \<and> events (run_batch counting_step (1, 0) True sample_trainer) =
       [Forward True, Zero_grad, Backward False, Clip_grad_norm 1, Optimizer_step]
   \<and> events (run_batch counting_step (1, 0) True
        (sample_trainer\<lparr>config := sample_config\<lparr>use_amp := True\<rparr>\<rparr>)) =
       [Forward True, Zero_grad, Backward True, Clip_grad_norm 1, Scaler_step, Scaler_update]"
  using training_step_order [of counting_step "(1, 0)" False sample_trainer]
    training_step_order [of counting_step "(1, 0)" True sample_trainer]
    training_step_order [of counting_step "(1, 0)" True
      "sample_trainer\<lparr>config := sample_config\<lparr>use_amp := True\<rparr>\<rparr>"]
  by (simp add: sample_trainer_def sample_config_def)

text \<open>The trace of a training step does not start with the zeroing of the gradients.\<close>
theorem training_step_order_counterexample:
  "events (run_batch counting_step (1, 0) True sample_trainer) \<noteq>
     [Zero_grad, Forward True, Backward False, Clip_grad_norm 1, Optimizer_step]"
  by (simp add: run_batch_events sample_trainer_def)


lemma last_state_Inr_iff: "\<not> isl r \<longleftrightarrow> r = Inr (last_state r)"
  by (cases r) (auto simp: last_state_def)







subsection \<open>The constructor on a snapshot\<close>

text \<open>
  C7, on the code. When no file lies at the path of the configuration, the constructor
  returns a trainer with \<open>epochs_run = 0\<close> and the parameters and optimizer state it was
  given, after printing that no snapshot was found; nothing is raised. When the file is a
  snapshot whose parameter names are those of the module, as every snapshot written by
  \<open>_save_snapshot\<close> is, the constructor raises \<open>RuntimeError\<close>: the names are loaded into
  the wrapper, which expects them with \<open>module.\<close> in front. Only a snapshot whose names
  carry that prefix is restored, with \<open>epochs_run = finished_epoch\<close>.
\<close>
theorem constructor_on_snapshot:
  "(files (resolved_path trainer_cfg) = None \<longrightarrow>
      (\<exists>t. Trainer_init trainer_cfg lr ws gr m0 o0 ntr nte files dirs = Inr t
         \<and> epochs_run t = 0 \<and> model t = m0 \<and> optimizer t = o0
         \<and> events t = [Print Snapshot_not_found] \<and> storage t = files))
   \<and> (files (resolved_path trainer_cfg) = Some (Snapshot_file s) \<and> m0 \<noteq> []
        \<and> map fst (model_state s) = map fst m0 \<longrightarrow>
      Trainer_init trainer_cfg lr ws gr m0 o0 ntr nte files dirs = Inl RuntimeError)
   \<and> (save_snapshot epoch t1 = Inr t2
        \<and> snapshot_path (config t1) = Some (resolved_path trainer_cfg)
        \<and> model t1 \<noteq> [] \<and> map fst m0 = map fst (model t1) \<longrightarrow>
      Trainer_init trainer_cfg lr ws gr m0 o0 ntr nte (storage t2) dirs = Inl RuntimeError)
   \<and> (files (resolved_path trainer_cfg) = Some (Snapshot_file s)
        \<and> set (map fst (model_state s)) = set (map (\<lambda>kw. ''module.'' @ fst kw) m0) \<longrightarrow>
      (\<exists>t. Trainer_init trainer_cfg lr ws gr m0 o0 ntr nte files dirs = Inr t
         \<and> epochs_run t = finished_epoch s \<and> optimizer t = optimizer_state s
         \<and> model t = map (\<lambda>kw. (fst kw, case map_of (model_state s) (''module.'' @ fst kw) of
                                            None \<Rightarrow> snd kw | Some w \<Rightarrow> w)) m0
         \<and> events t = [Print (Resuming (finished_epoch s))] \<and> storage t = files))"
proof (intro conjI impI)
  assume "files (resolved_path trainer_cfg) = None"
  then show "\<exists>t. Trainer_init trainer_cfg lr ws gr m0 o0 ntr nte files dirs = Inr t
         \<and> epochs_run t = 0 \<and> model t = m0 \<and> optimizer t = o0
         \<and> events t = [Print Snapshot_not_found] \<and> storage t = files"
    by (rule Trainer_init_absent)
next
  assume "files (resolved_path trainer_cfg) = Some (Snapshot_file s) \<and> m0 \<noteq> []
        \<and> map fst (model_state s) = map fst m0"
  then show "Trainer_init trainer_cfg lr ws gr m0 o0 ntr nte files dirs = Inl RuntimeError"
    by (intro Trainer_init_own [where s = s]) simp_all
next
  assume h: "save_snapshot epoch t1 = Inr t2
        \<and> snapshot_path (config t1) = Some (resolved_path trainer_cfg)
        \<and> model t1 \<noteq> [] \<and> map fst m0 = map fst (model t1)"
  let ?s = "\<lparr>model_state = model t1, optimizer_state = optimizer t1, finished_epoch = epoch\<rparr>"
  from h save_snapshot_Inr [of epoch t1 t2]
  have "storage t2 (resolved_path trainer_cfg) = Some (Snapshot_file ?s)"
    by auto
  moreover from h have "m0 \<noteq> []" by auto
  moreover from h have "map fst (model_state ?s) = map fst m0" by simp
  ultimately show "Trainer_init trainer_cfg lr ws gr m0 o0 ntr nte (storage t2) dirs =
      Inl RuntimeError"
    by (rule Trainer_init_own)
next
  assume "files (resolved_path trainer_cfg) = Some (Snapshot_file s)
        \<and> set (map fst (model_state s)) = set (map (\<lambda>kw. ''module.'' @ fst kw) m0)"
  then show "\<exists>t. Trainer_init trainer_cfg lr ws gr m0 o0 ntr nte files dirs = Inr t
         \<and> epochs_run t = finished_epoch s \<and> optimizer t = optimizer_state s
         \<and> model t = map (\<lambda>kw. (fst kw, case map_of (model_state s) (''module.'' @ fst kw) of
                                            None \<Rightarrow> snd kw | Some w \<Rightarrow> w)) m0
         \<and> events t = [Print (Resuming (finished_epoch s))] \<and> storage t = files"
    by (intro Trainer_init_wrapped) simp_all
qed

theorem constructor_on_snapshot_witness:
  "(\<exists>t. Trainer_init sample_config 0 1 0 [(''w'', 5::nat)] (6::nat) 2 1 Map.empty (\<lambda>p. True) = Inr t
        \<and> epochs_run t = 0 \<and> model t = [(''w'', 5)] \<and> optimizer t = 6
        \<and> events t = [Print Snapshot_not_found])
   \<and> train counting_step sample_trainer = Inr (last_state (train counting_step sample_trainer))
   \<and> storage (last_state (train counting_step sample_trainer)) ''snapshot.pt'' =
       Some (Snapshot_file \<lparr>model_state = [(''w'', 8)], optimizer_state = 8, finished_epoch = 4\<rparr>)
   \<and> Trainer_init sample_config 0 1 0 [(''w'', 0::nat)] (0::nat) 2 1
        (storage (last_state (train counting_step sample_trainer))) (\<lambda>p. True) = Inl RuntimeError
   \<and> (\<exists>t. Trainer_init sample_config 0 1 0 [(''w'', 5::nat)] (6::nat) 2 1
             [''snapshot.pt'' \<mapsto> Snapshot_file
                \<lparr>model_state = [(''module.w'', 8)], optimizer_state = 9, finished_epoch = 2\<rparr>]
             (\<lambda>p. True) = Inr t
        \<and> epochs_run t = 2 \<and> model t = [(''w'', 8)] \<and> optimizer t = 9
        \<and> events t = [Print (Resuming 2)])"
proof -
  let ?r = "train counting_step sample_trainer"
  let ?own = "\<lparr>model_state = [(''w'', 8::nat)], optimizer_state = 8::nat, finished_epoch = 4\<rparr>"
  let ?made = "\<lparr>model_state = [(''module.w'', 8::nat)], optimizer_state = 9::nat,
                finished_epoch = 2\<rparr>"
  have path: "resolved_path sample_config = ''snapshot.pt''"
    by (simp add: resolved_path_def sample_config_def)
  have "\<not> isl ?r" by code_simp
  then have r0: "?r = Inr (last_state ?r)"
    by (simp add: last_state_Inr_iff)
  have written: "storage (last_state ?r) ''snapshot.pt'' = Some (Snapshot_file ?own)"
    by code_simp
  have absent: "(Map.empty :: string \<rightharpoonup> (nat, nat) stored_file) (resolved_path sample_config) = None"
    by simp
  have own: "storage (last_state ?r) (resolved_path sample_config) = Some (Snapshot_file ?own)
      \<and> [(''w'', 0::nat)] \<noteq> [] \<and> map fst (model_state ?own) = map fst [(''w'', 0::nat)]"
    using written by (simp add: path)
  have made: "[''snapshot.pt'' \<mapsto> Snapshot_file ?made] (resolved_path sample_config) =
        Some (Snapshot_file ?made)
      \<and> set (map fst (model_state ?made)) = set (map (\<lambda>kw. ''module.'' @ fst kw) [(''w'', 5::nat)])"
    by (simp add: path)
  note A = constructor_on_snapshot
    [where files = "Map.empty :: string \<rightharpoonup> (nat, nat) stored_file" and trainer_cfg = sample_config
       and lr = 0 and ws = 1 and gr = 0 and ?m0.0 = "[(''w'', 5)]" and ?o0.0 = 6 and ntr = 2
       and nte = 1 and dirs = "\<lambda>p. True",
     THEN conjunct1, rule_format, OF absent]
  note B = constructor_on_snapshot
    [where files = "storage (last_state ?r)" and trainer_cfg = sample_config and s = ?own
       and lr = 0 and ws = 1 and gr = 0 and ?m0.0 = "[(''w'', 0)]" and ?o0.0 = 0 and ntr = 2
       and nte = 1 and dirs = "\<lambda>p. True",
     THEN conjunct2, THEN conjunct1, rule_format, OF own]
  note C = constructor_on_snapshot
    [where files = "[''snapshot.pt'' \<mapsto> Snapshot_file ?made]" and trainer_cfg = sample_config
       and s = ?made and lr = 0 and ws = 1 and gr = 0 and ?m0.0 = "[(''w'', 5)]" and ?o0.0 = 6
       and ntr = 2 and nte = 1 and dirs = "\<lambda>p. True",
     THEN conjunct2, THEN conjunct2, THEN conjunct2, rule_format, OF made]
  from A have a: "\<exists>t. Trainer_init sample_config 0 1 0 [(''w'', 5::nat)] (6::nat) 2 1 Map.empty
          (\<lambda>p. True) = Inr t
        \<and> epochs_run t = 0 \<and> model t = [(''w'', 5)] \<and> optimizer t = 6
        \<and> events t = [Print Snapshot_not_found]"
    by blast
  from C have c: "\<exists>t. Trainer_init sample_config 0 1 0 [(''w'', 5::nat)] (6::nat) 2 1
             [''snapshot.pt'' \<mapsto> Snapshot_file ?made] (\<lambda>p. True) = Inr t
        \<and> epochs_run t = 2 \<and> model t = [(''w'', 8)] \<and> optimizer t = 9
        \<and> events t = [Print (Resuming 2)]"
    by auto
  show ?thesis
    by (intro conjI a r0 written B c)
qed

end
